theory Spec2Isabelle
  imports
    Complex_Main
    "HOL-Library.Multiset"
    "HOL-Library.Char_ord"
    "HOL-Library.List_Lexorder"
    "HOL-Library.Product_Lexorder"
begin

section \<open>Course Attribute Deriver\<close>

text \<open>
  \<open>derive_subject_and_description\<close> in \<open>scripts/compute_cumulative_gpa.py\<close> adds the
  columns \<open>subject\<close> and \<open>course_description\<close> to a frame; every assignment is
  row-wise (\<open>df.loc[mask, col] = v\<close>), so a frame is a list of rows and the function
  maps one row function over it. Only the column \<open>CourseCD\<close> is read; the other
  columns of the frame are the record's extension.
\<close>

record code_row =
  CourseCD :: string
  subject :: string
  course_description :: string

text \<open>\<open>Series.str.slice(i, j)\<close> on one string: Python's \<open>s[i:j]\<close> for \<open>0 \<le> i \<le> j\<close>,
  which is empty when \<open>i\<close> is past the end and never raises.\<close>

definition str_slice :: "nat \<Rightarrow> nat \<Rightarrow> string \<Rightarrow> string" where
  "str_slice i j s = take (j - i) (drop i s)"

text \<open>\<open>df.loc[mask, col] = v\<close> on one row: the cell is overwritten where the mask holds.\<close>

definition loc_assign :: "bool \<Rightarrow> string \<Rightarrow> string \<Rightarrow> string" where
  "loc_assign cond v cur = (if cond then v else cur)"

text \<open>The assignments of lines 139 to 157: the subject read from the first character.\<close>

definition subject_char1 :: "string \<Rightarrow> string" where
  "subject_char1 first =
    (let s = [];
         s = loc_assign (first = ''E'') ''English'' s;
         s = loc_assign (first = ''H'') ''Social Studies'' s;
         s = loc_assign (first = ''M'') ''Mathematics'' s;
         s = loc_assign (first = ''S'') ''Science'' s;
         s = loc_assign (first = ''F'') ''Foreign Language'' s;
         s = loc_assign (first = ''P'') ''Physical Education & Health'' s;
         s = loc_assign (first \<in> set [''A'', ''U'', ''D'', ''C'']) ''Arts'' s;
         s = loc_assign (first = ''T'') ''Technology'' s;
         s = loc_assign (first = ''R'') ''Career Development'' s;
         s = loc_assign (first = ''B'') ''Business'' s;
         s = loc_assign (first = ''K'') ''Human Services'' s;
         s = loc_assign (first = ''G'') ''Guidance'' s;
         s = loc_assign (first = ''Z'') ''Undefined'' s
     in s)"

text \<open>The assignments of lines 163 to 172: the description read from the sixth character.\<close>

definition description_char6 :: "string \<Rightarrow> string" where
  "description_char6 sixth =
    (let d = [];
         d = loc_assign (sixth = ''H'') ''Honors'' d;
         d = loc_assign (sixth = ''X'') ''Advanced Placement (AP)'' d;
         d = loc_assign (sixth = ''B'') ''International Baccalaureate (IB)'' d;
         d = loc_assign (sixth = ''U'') ''College-Level: College Credit'' d;
         d = loc_assign (sixth = ''C'') ''College-Level: Non-College Credit'' d;
         d = loc_assign (sixth = ''T'') ''CTE'' d;
         d = loc_assign (sixth = ''S'') ''Non-Credit/Remediation'' d;
         d = loc_assign (sixth = ''P'') ''Exam Preparation'' d;
         d = loc_assign (sixth = ''Q'') ''N/A'' d
     in d)"

text \<open>
  One row of \<open>derive_subject_and_description\<close>, in the order of the source: the base
  tables, then the overwrite for \<open>fourth == "J"\<close> (line 160 for the subject, line 175
  for the description), then the two overwrites for \<open>fourth == "M"\<close> (lines 177, 178).
\<close>

definition derive_row :: "'a code_row_scheme \<Rightarrow> 'a code_row_scheme" where
  "derive_row r =
    (let first = str_slice 0 1 (CourseCD r);
         sixth = str_slice 5 6 (CourseCD r);
         fourth = str_slice 3 4 (CourseCD r);
         s = subject_char1 first;
         s = loc_assign (fourth = ''J'') [] s;
         d = description_char6 sixth;
         d = loc_assign (fourth = ''J'') [] d;
         d = loc_assign (sixth = ''A'' \<and> fourth = ''M'') ''Accelerated'' d;
         d = loc_assign (sixth \<in> set [''X'', ''B'', ''U'', ''C'', ''P''] \<and> fourth = ''M'') [] d
     in r\<lparr>subject := s, course_description := d\<rparr>)"

definition derive_subject_and_description ::
  "'a code_row_scheme list \<Rightarrow> 'a code_row_scheme list" where
  "derive_subject_and_description df = map derive_row df"

section \<open>Course flags: deduplication\<close>

text \<open>
  The rows of \<open>Hsst_tbl_CourseFlag\<close> as \<open>load_current_year_data\<close> reads them. The source
  does not fix the column types; the year is taken as an integer and the codes as
  strings, all present. The flag is a number or null. The query's \<open>SELECT DISTINCT\<close>
  lists the flag among its columns, so two rows can agree on the key columns and differ
  in the flag.
\<close>

record courseflag =
  cf_SchoolYear :: int
  cf_SchoolDBN :: string
  cf_TermCD :: string
  cf_CourseCD :: string
  cf_GradeAveragedFlag :: "rat option"
  cf_MarkingPeriod :: string

text \<open>The columns named in \<open>sort_values\<close> and in \<open>drop_duplicates(subset=...)\<close>.\<close>

definition cf_key :: "courseflag \<Rightarrow> int \<times> string \<times> string \<times> string \<times> string" where
  "cf_key r = (cf_SchoolYear r, cf_SchoolDBN r, cf_TermCD r, cf_CourseCD r, cf_MarkingPeriod r)"

text \<open>
  \<open>DataFrame.sort_values\<close> on a list of columns orders the rows by the tuple of those
  columns; the sort on several columns is stable, so rows with equal tuples stay in the
  order they had: \<open>sort_key\<close>.
\<close>

definition sort_values :: "('r \<Rightarrow> 'k::linorder) \<Rightarrow> 'r list \<Rightarrow> 'r list" where
  "sort_values by_cols df = sort_key by_cols df"

text \<open>\<open>drop_duplicates(subset=..., keep="first")\<close>: a row stays unless an earlier row has
  the same values in the subset columns.\<close>

fun drop_duplicates :: "('r \<Rightarrow> 'k) \<Rightarrow> 'r list \<Rightarrow> 'r list" where
  "drop_duplicates key_of [] = []"
| "drop_duplicates key_of (x # xs) =
     x # drop_duplicates key_of (filter (\<lambda>y. key_of y \<noteq> key_of x) xs)"

text \<open>Lines 102 to 106 of \<open>load_current_year_data\<close>.\<close>

definition dedupe_courseflag :: "courseflag list \<Rightarrow> courseflag list" where
  "dedupe_courseflag df = drop_duplicates cf_key (sort_values cf_key df)"

section \<open>Yearly Aggregator\<close>

text \<open>
  A numeric cell of a frame is a number or null (\<open>NaN\<close>): \<open>None\<close> is null. Numbers are
  exact rationals: the rounding of float64 arithmetic and its overflow are not part of
  this model, and the input columns hold no infinities.
\<close>

type_synonym num = "rat option"

text \<open>
  The columns of a coursegrade frame that \<open>compute_cumulative_gpa\<close> and
  \<open>compute_yearly_totals\<close> read. \<open>is_passing\<close> is 0 or 1 where present.
\<close>

record coursegrade =
  school_year :: "int option"
  student_id :: "int option"
  credits :: num
  mark :: "string option"
  grade_average_factor :: num
  grade_averaged_flag :: num
  is_passing :: num
  numeric_equivalent :: num

definition isna :: "'a option \<Rightarrow> bool" where
  "isna c = (c = None)"

definition fillna :: "rat \<Rightarrow> num \<Rightarrow> rat" where
  "fillna v c = (case c of None \<Rightarrow> v | Some x \<Rightarrow> x)"

text \<open>The product of two cells: null if either is null.\<close>

definition nmul :: "num \<Rightarrow> num \<Rightarrow> num" where
  "nmul a b = (case a of None \<Rightarrow> None | Some x \<Rightarrow> (case b of None \<Rightarrow> None | Some y \<Rightarrow> Some (x * y)))"

text \<open>Line 283: the mask of the rows that are kept,
  \<open>~((flag.fillna(0) == 0) | numeric_equivalent.isna())\<close>.\<close>

definition eligible :: "coursegrade \<Rightarrow> bool" where
  "eligible r \<longleftrightarrow>
     \<not> (fillna 0 (grade_averaged_flag r) = 0 \<or> isna (numeric_equivalent r))"

text \<open>Lines 291, 292 and 295: the three \<open>tot_\<close> columns of one row. \<open>pd.to_numeric\<close> is
  the identity on a numeric cell.\<close>

definition tot_cred_earned_row :: "coursegrade \<Rightarrow> num" where
  "tot_cred_earned_row r = nmul (credits r) (is_passing r)"

definition tot_gpa_pts_row :: "coursegrade \<Rightarrow> num" where
  "tot_gpa_pts_row r = nmul (nmul (numeric_equivalent r) (credits r)) (grade_average_factor r)"

definition tot_cred_att_row :: "coursegrade \<Rightarrow> num" where
  "tot_cred_att_row r = credits r"

text \<open>
  \<open>GroupBy.sum(min_count=1)\<close> on the cells of one group and one column: the non-null
  cells are added up and counted, and the result is null when fewer than \<open>min_count\<close>
  of them were seen.
\<close>

definition sum_step :: "rat \<times> nat \<Rightarrow> num \<Rightarrow> rat \<times> nat" where
  "sum_step acc c = (case c of None \<Rightarrow> acc | Some x \<Rightarrow> (fst acc + x, Suc (snd acc)))"

definition group_sum :: "nat \<Rightarrow> num list \<Rightarrow> num" where
  "group_sum min_count cs =
     (let acc = foldl sum_step (0, 0) cs
      in if snd acc < min_count then None else Some (fst acc))"

text \<open>
  \<open>groupby(cols, dropna=False)\<close>: one group for each distinct key, a null key included,
  the groups in ascending key order with a null after every number.
\<close>

definition na_last :: "int option \<Rightarrow> nat \<times> int" where
  "na_last k = (case k of None \<Rightarrow> (1, 0) | Some v \<Rightarrow> (0, v))"

definition group_keys :: "('r \<Rightarrow> 'k) \<Rightarrow> ('k \<Rightarrow> 'o::linorder) \<Rightarrow> 'r list \<Rightarrow> 'k list" where
  "group_keys key_of ord df = sort_key ord (remdups (map key_of df))"

record yearly_total =
  y_school_year :: "int option"
  y_student_id :: "int option"
  y_tot_cred_att :: num
  y_tot_cred_earned :: num
  y_tot_gpa_pts :: num

definition year_student :: "coursegrade \<Rightarrow> int option \<times> int option" where
  "year_student r = (school_year r, student_id r)"

definition year_student_ord :: "int option \<times> int option \<Rightarrow> (nat \<times> int) \<times> (nat \<times> int)" where
  "year_student_ord k = (na_last (fst k), na_last (snd k))"

definition compute_yearly_totals :: "coursegrade list \<Rightarrow> yearly_total list" where
  "compute_yearly_totals df =
     (let d = filter eligible df
      in map (\<lambda>k.
            let g = filter (\<lambda>r. year_student r = k) d
            in \<lparr>y_school_year = fst k,
                y_student_id = snd k,
                y_tot_cred_att = group_sum 1 (map tot_cred_att_row g),
                y_tot_cred_earned = group_sum 1 (map tot_cred_earned_row g),
                y_tot_gpa_pts = group_sum 1 (map tot_gpa_pts_row g)\<rparr>)
          (group_keys year_student year_student_ord d))"

section \<open>Cumulative Combiner\<close>

text \<open>
  The quotient of two float64 cells can be infinite: \<open>x / 0\<close> is \<open>inf\<close> or \<open>-inf\<close> for a
  number \<open>x\<close> other than 0, and \<open>NaN\<close> for \<open>0 / 0\<close>; nothing is raised. The zero of a
  group sum is the positive zero, so the sign is that of the dividend. Only \<open>NaN\<close> is
  null for pandas.
\<close>

datatype fnum = NaN | Fin rat | PosInf | NegInf

definition truediv :: "num \<Rightarrow> num \<Rightarrow> fnum" where
  "truediv a b =
     (case a of None \<Rightarrow> NaN | Some x \<Rightarrow>
        (case b of None \<Rightarrow> NaN | Some y \<Rightarrow>
           if y = 0 then (if x = 0 then NaN else if 0 < x then PosInf else NegInf)
           else Fin (x / y)))"

text \<open>\<open>Series.round(2)\<close>: to the nearest multiple of 1/100, a tie going to the even one;
  \<open>NaN\<close> and the infinities stay.\<close>

definition rint :: "rat \<Rightarrow> int" where
  "rint q =
     (let f = \<lfloor>q\<rfloor>; d = q - of_int f
      in if d < 1 / 2 then f else if 1 / 2 < d then f + 1 else if even f then f else f + 1)"

definition round_decimals :: "nat \<Rightarrow> fnum \<Rightarrow> fnum" where
  "round_decimals n v =
     (case v of Fin q \<Rightarrow> Fin (of_int (rint (q * 10 ^ n)) / 10 ^ n) | _ \<Rightarrow> v)"

record cumulative_row =
  c_student_id :: "int option"
  c_tot_cred_att :: num
  c_tot_cred_earned :: num
  c_tot_gpa_pts :: num
  c_tot_gpa :: fnum

text \<open>
  Line 362: \<open>merged.loc[merged["mark"].isna(), "is_passing"] = np.nan\<close>. The guard of
  line 361 holds: both columns are in the merged frame.
\<close>

definition null_is_passing_row :: "coursegrade \<Rightarrow> coursegrade" where
  "null_is_passing_row r = (if isna (mark r) then r\<lparr>is_passing := None\<rparr> else r)"

definition null_is_passing :: "coursegrade list \<Rightarrow> coursegrade list" where
  "null_is_passing merged = map null_is_passing_row merged"

text \<open>
  Lines 376 to 386: the \<open>tot_\<close> columns of the concatenated frame are summed by
  \<open>student_id\<close>, then \<open>tot_gpa\<close> is computed and rounded.
\<close>

definition collapse_by_student :: "yearly_total list \<Rightarrow> cumulative_row list" where
  "collapse_by_student all_cat =
     map (\<lambda>k.
        let g = filter (\<lambda>r. y_student_id r = k) all_cat;
            att = group_sum 1 (map y_tot_cred_att g);
            earned = group_sum 1 (map y_tot_cred_earned g);
            pts = group_sum 1 (map y_tot_gpa_pts g)
        in \<lparr>c_student_id = k,
            c_tot_cred_att = att,
            c_tot_cred_earned = earned,
            c_tot_gpa_pts = pts,
            c_tot_gpa = round_decimals 2 (truediv pts att)\<rparr>)
      (group_keys y_student_id na_last all_cat)"

text \<open>Lines 373 and 374: \<open>pd.concat\<close> of the yearly frames, then the collapse.\<close>

definition combine :: "yearly_total list list \<Rightarrow> cumulative_row list" where
  "combine all_frames = collapse_by_student (concat all_frames)"

text \<open>
  \<open>compute_cumulative_gpa\<close> from the merged current-year frame on: \<open>merged\<close> is the
  frame of line 352, \<open>prior\<close> the frames that \<open>load_prior_courses\<close> returns. The
  result is the frame handed to \<open>to_stata\<close>.
\<close>

definition compute_cumulative_gpa ::
  "coursegrade list \<Rightarrow> coursegrade list list \<Rightarrow> cumulative_row list" where
  "compute_cumulative_gpa merged prior =
     (let totals_current = compute_yearly_totals (null_is_passing merged);
          prior_totals = map compute_yearly_totals prior
      in combine (totals_current # prior_totals))"

section \<open>The sum of a group as the specification words it\<close>

text \<open>
  The specification's sum of a group: the sum of the contributions that are not null,
  and null when every contribution is null.
\<close>

fun non_null :: "'a option list \<Rightarrow> 'a list" where
  "non_null [] = []"
| "non_null (None # cs) = non_null cs"
| "non_null (Some x # cs) = x # non_null cs"

definition sum_ignoring_nulls :: "num list \<Rightarrow> num" where
  "sum_ignoring_nulls cs =
     (if \<forall>c \<in> set cs. c = None then None else Some (sum_list (non_null cs)))"

text \<open>The sum of two contributions, a null one being ignored.\<close>

definition nadd :: "num \<Rightarrow> num \<Rightarrow> num" where
  "nadd a b = (case a of None \<Rightarrow> b | Some x \<Rightarrow> (case b of None \<Rightarrow> Some x | Some y \<Rightarrow> Some (x + y)))"

section \<open>Credits that are not negative\<close>

text \<open>
  The query of the current year keeps \<open>Credits > 0\<close>; a prior-year file is not
  filtered. A row's credits are not negative when they are null or at least 0.
\<close>

definition credits_nonneg :: "coursegrade \<Rightarrow> bool" where
  "credits_nonneg r \<longleftrightarrow> (case credits r of None \<Rightarrow> True | Some c \<Rightarrow> 0 \<le> c)"

text \<open>
  What attempted credits that are not negative pass on to the grade points summed
  beside them: no credits, no points; and zero credits, zero points or none.
\<close>

definition att_pts_ok :: "num \<Rightarrow> num \<Rightarrow> bool" where
  "att_pts_ok a p \<longleftrightarrow>
     (a = None \<longrightarrow> p = None) \<and> (\<forall>v. a = Some v \<longrightarrow> 0 \<le> v)
     \<and> (a = Some 0 \<longrightarrow> p = None \<or> p = Some 0)"

section \<open>Example rows\<close>

definition ex_flag_1 :: courseflag where
  "ex_flag_1 = \<lparr>cf_SchoolYear = 2023, cf_SchoolDBN = ''01M292'', cf_TermCD = ''1'',
     cf_CourseCD = ''EES81'', cf_GradeAveragedFlag = Some 1, cf_MarkingPeriod = ''1''\<rparr>"

definition ex_flag_0 :: courseflag where
  "ex_flag_0 = \<lparr>cf_SchoolYear = 2023, cf_SchoolDBN = ''01M292'', cf_TermCD = ''1'',
     cf_CourseCD = ''EES81'', cf_GradeAveragedFlag = Some 0, cf_MarkingPeriod = ''1''\<rparr>"

definition ex_flag_other :: courseflag where
  "ex_flag_other = \<lparr>cf_SchoolYear = 2023, cf_SchoolDBN = ''01M292'', cf_TermCD = ''1'',
     cf_CourseCD = ''EES11'', cf_GradeAveragedFlag = Some 1, cf_MarkingPeriod = ''1''\<rparr>"

definition ex_null_mark :: coursegrade where
  "ex_null_mark = \<lparr>school_year = Some 2023, student_id = Some 7, credits = Some 1,
     mark = None, grade_average_factor = Some 1, grade_averaged_flag = Some 1,
     is_passing = Some 1, numeric_equivalent = Some 90\<rparr>"

definition ex_null_factor :: coursegrade where
  "ex_null_factor = \<lparr>school_year = Some 2023, student_id = Some 7, credits = Some 2,
     mark = Some ''85'', grade_average_factor = None, grade_averaged_flag = Some 1,
     is_passing = Some 1, numeric_equivalent = Some 85\<rparr>"

definition ex_no_flag :: coursegrade where
  "ex_no_flag = \<lparr>school_year = Some 2023, student_id = Some 7, credits = Some 3,
     mark = Some ''70'', grade_average_factor = Some 1, grade_averaged_flag = None,
     is_passing = Some 1, numeric_equivalent = Some 70\<rparr>"

definition ex_plus :: coursegrade where
  "ex_plus = \<lparr>school_year = Some 2022, student_id = Some 1, credits = Some 1,
     mark = Some ''90'', grade_average_factor = Some 1, grade_averaged_flag = Some 1,
     is_passing = Some 1, numeric_equivalent = Some 90\<rparr>"

definition ex_minus :: coursegrade where
  "ex_minus = \<lparr>school_year = Some 2022, student_id = Some 1, credits = Some (- 1),
     mark = Some ''80'', grade_average_factor = Some 1, grade_averaged_flag = Some 1,
     is_passing = Some 1, numeric_equivalent = Some 80\<rparr>"

definition ex_zero :: coursegrade where
  "ex_zero = \<lparr>school_year = Some 2022, student_id = Some 2, credits = Some 0,
     mark = Some ''90'', grade_average_factor = Some 1, grade_averaged_flag = Some 1,
     is_passing = Some 1, numeric_equivalent = Some 90\<rparr>"

section \<open>Properties of the Course Attribute Deriver\<close>

lemma str_slice_in_range:
  "i < length s \<Longrightarrow> str_slice i (Suc i) s = [s ! i]"
  by (simp add: str_slice_def take_Suc_conv_app_nth Cons_nth_drop_Suc [symmetric])

lemma str_slice_past_end:
  "length s \<le> i \<Longrightarrow> str_slice i j s = []"
  by (simp add: str_slice_def)

text \<open>
  C1 (as stated): for the course code \<open>E3HXXX\<close> the deriver gives subject \<open>English\<close>
  and course description \<open>Honors\<close>. The code reads the description from the
  character at 0-indexed position 5, which is \<open>X\<close> here, so the description is
  not \<open>Honors\<close>.
\<close>

theorem C1_E3HXXX_not_honors:
  "course_description
     (hd (derive_subject_and_description
        [\<lparr>CourseCD = ''E3HXXX'', subject = [], course_description = []\<rparr>]))
   \<noteq> ''Honors''"
  by (simp add: derive_subject_and_description_def derive_row_def description_char6_def
      str_slice_def loc_assign_def)

text \<open>
  C1 (amended): for the course code \<open>E3HXXX\<close> the deriver gives subject \<open>English\<close>
  and course description \<open>Advanced Placement (AP)\<close>.
\<close>

theorem C1_E3HXXX_derived:
  "derive_subject_and_description
     [\<lparr>CourseCD = ''E3HXXX'', subject = [], course_description = []\<rparr>]
   = [\<lparr>CourseCD = ''E3HXXX'', subject = ''English'',
       course_description = ''Advanced Placement (AP)''\<rparr>]"
  by (simp add: derive_subject_and_description_def derive_row_def subject_char1_def
      description_char6_def str_slice_def loc_assign_def)

text \<open>
  C9: in every derived row whose course code has \<open>M\<close> at 0-indexed position 3, the
  description is \<open>Accelerated\<close> when position 5 holds \<open>A\<close>, whatever the table of the
  sixth character gives, and is the empty string when position 5 holds one of
  \<open>X\<close>, \<open>B\<close>, \<open>U\<close>, \<open>C\<close>, \<open>P\<close>.
\<close>

theorem C9_middle_school_overrides:
  assumes "r \<in> set (derive_subject_and_description df)"
    and "5 < length (CourseCD r)"
    and "CourseCD r ! 3 = CHR ''M''"
  shows "(CourseCD r ! 5 = CHR ''A'' \<longrightarrow> course_description r = ''Accelerated'')
       \<and> (CourseCD r ! 5 \<in> {CHR ''X'', CHR ''B'', CHR ''U'', CHR ''C'', CHR ''P''}
            \<longrightarrow> course_description r = [])"
proof -
  from assms(1) obtain r0 where r: "r = derive_row r0"
    by (auto simp: derive_subject_and_description_def)
  have code: "CourseCD r = CourseCD r0"
    by (simp add: r derive_row_def Let_def)
  have fourth: "str_slice 3 4 (CourseCD r0) = ''M''"
    using assms(2,3) str_slice_in_range [of 3 "CourseCD r0"] by (simp add: code)
  have sixth: "str_slice 5 6 (CourseCD r0) = [CourseCD r0 ! 5]"
    using assms(2) str_slice_in_range [of 5 "CourseCD r0"] by (simp add: code)
  show ?thesis
    by (auto simp: r derive_row_def Let_def fourth sixth loc_assign_def)
qed

theorem C9_middle_school_overrides_witness:
  "course_description (derive_row \<lparr>CourseCD = ''EEJM1A'', subject = [], course_description = []\<rparr>)
     = ''Accelerated''
   \<and> course_description (derive_row \<lparr>CourseCD = ''EEJM1X'', subject = [], course_description = []\<rparr>)
     = []"
proof -
  let ?a = "\<lparr>CourseCD = ''EEJM1A'', subject = [], course_description = []\<rparr>"
  let ?x = "\<lparr>CourseCD = ''EEJM1X'', subject = [], course_description = []\<rparr>"
  have ca: "CourseCD (derive_row ?a) = ''EEJM1A''" and cx: "CourseCD (derive_row ?x) = ''EEJM1X''"
    by (simp_all add: derive_row_def Let_def)
  have "derive_row ?a \<in> set (derive_subject_and_description [?a])"
    and "derive_row ?x \<in> set (derive_subject_and_description [?x])"
    by (simp_all add: derive_subject_and_description_def)
  from C9_middle_school_overrides [OF this(1)] C9_middle_school_overrides [OF this(2)]
  show ?thesis by (simp add: ca cx)
qed

text \<open>
  C10: the deriver is a total function of the row (a slice past the end of the code is
  the empty string), and in every derived row a course code of fewer than 6 characters
  gets the empty description; with fewer than 4 characters the subject is the one the
  table of the first character gives, no overwrite for the fourth character applying;
  the empty code gets the empty subject and the empty description.
\<close>

theorem C10_short_course_code:
  assumes "r \<in> set (derive_subject_and_description df)"
  shows "(length (CourseCD r) < 6 \<longrightarrow> course_description r = [])
       \<and> (length (CourseCD r) < 4 \<longrightarrow>
            subject r = subject_char1 (str_slice 0 1 (CourseCD r)) \<and> course_description r = [])
       \<and> (CourseCD r = [] \<longrightarrow> subject r = [] \<and> course_description r = [])"
proof -
  from assms obtain r0 where r: "r = derive_row r0"
    by (auto simp: derive_subject_and_description_def)
  have code: "CourseCD r = CourseCD r0"
    by (simp add: r derive_row_def Let_def)
  have short: "course_description r = []" if "length (CourseCD r0) < 6"
  proof -
    from that have "str_slice 5 6 (CourseCD r0) = []"
      by (simp add: str_slice_past_end)
    then show ?thesis
      by (simp add: r derive_row_def Let_def description_char6_def loc_assign_def)
  qed
  have shorter: "subject r = subject_char1 (str_slice 0 1 (CourseCD r0))"
    if "length (CourseCD r0) < 4"
  proof -
    from that have "str_slice 3 4 (CourseCD r0) = []"
      by (simp add: str_slice_past_end)
    then show ?thesis
      by (simp add: r derive_row_def Let_def loc_assign_def)
  qed
  have empty: "subject r = []" if "CourseCD r0 = []"
    using shorter that by (simp add: str_slice_def subject_char1_def loc_assign_def)
  from short shorter empty show ?thesis
    by (auto simp: code)
qed

theorem C10_short_course_code_witness:
  "course_description (derive_row \<lparr>CourseCD = ''MQM'', subject = [], course_description = []\<rparr>) = []
   \<and> subject (derive_row \<lparr>CourseCD = ''MQM'', subject = [], course_description = []\<rparr>)
       = ''Mathematics''
   \<and> subject (derive_row \<lparr>CourseCD = [], subject = ''x'', course_description = ''y''\<rparr>) = []
   \<and> course_description (derive_row \<lparr>CourseCD = [], subject = ''x'', course_description = ''y''\<rparr>) = []"
proof -
  let ?a = "\<lparr>CourseCD = ''MQM'', subject = [], course_description = []\<rparr>"
  let ?e = "\<lparr>CourseCD = [], subject = ''x'', course_description = ''y''\<rparr>"
  have ca: "CourseCD (derive_row ?a) = ''MQM''" and ce: "CourseCD (derive_row ?e) = []"
    by (simp_all add: derive_row_def Let_def)
  have "derive_row ?a \<in> set (derive_subject_and_description [?a])"
    and "derive_row ?e \<in> set (derive_subject_and_description [?e])"
    by (simp_all add: derive_subject_and_description_def)
  from C10_short_course_code [OF this(1)] C10_short_course_code [OF this(2)]
  show ?thesis
    by (simp add: ca ce str_slice_def subject_char1_def loc_assign_def)
qed

section \<open>Properties of the Yearly Aggregator\<close>

lemma sum_step_simps:
  "sum_step acc None = acc"
  "sum_step acc (Some x) = (fst acc + x, Suc (snd acc))"
  by (simp_all add: sum_step_def)

lemma foldl_sum_step:
  "foldl sum_step acc cs = (fst acc + sum_list (non_null cs), snd acc + length (non_null cs))"
proof (induction cs arbitrary: acc)
  case Nil
  show ?case by simp
next
  case (Cons c cs)
  show ?case
    by (cases c) (simp_all add: Cons.IH sum_step_simps)
qed

lemma non_null_empty_iff: "non_null cs = [] \<longleftrightarrow> (\<forall>c \<in> set cs. c = None)"
  by (induction cs rule: non_null.induct) simp_all

lemma group_sum_min_count:
  "group_sum n cs = (if length (non_null cs) < n then None else Some (sum_list (non_null cs)))"
  by (simp add: group_sum_def foldl_sum_step)

lemma group_sum_1: "group_sum 1 cs = sum_ignoring_nulls cs"
  by (simp add: group_sum_min_count sum_ignoring_nulls_def non_null_empty_iff [symmetric])






lemma group_sum_Suc_0: "group_sum (Suc 0) cs = sum_ignoring_nulls cs"
  using group_sum_1 [of cs] by simp

lemma filter_year_student:
  "filter (\<lambda>r. year_student r = k) (filter eligible df)
   = filter (\<lambda>r. eligible r \<and> school_year r = fst k \<and> student_id r = snd k) df"
  by (auto simp: year_student_def intro: filter_cong)


lemma set_group_keys: "set (group_keys key_of ord df) = key_of ` set df"
  by (simp add: group_keys_def)

lemma yearly_total_fields:
  assumes "out \<in> set (compute_yearly_totals df)"
  defines "g \<equiv> filter (\<lambda>r. eligible r \<and> school_year r = y_school_year out
                            \<and> student_id r = y_student_id out) df"
  shows "y_tot_cred_att out = sum_ignoring_nulls (map tot_cred_att_row g)"
    and "y_tot_cred_earned out = sum_ignoring_nulls (map tot_cred_earned_row g)"
    and "y_tot_gpa_pts out = sum_ignoring_nulls (map tot_gpa_pts_row g)"
proof -
  let ?g = "\<lambda>k. filter (\<lambda>r. year_student r = k) (filter eligible df)"
  from assms(1) obtain k where out: "out = \<lparr>y_school_year = fst k, y_student_id = snd k,
        y_tot_cred_att = group_sum 1 (map tot_cred_att_row (?g k)),
        y_tot_cred_earned = group_sum 1 (map tot_cred_earned_row (?g k)),
        y_tot_gpa_pts = group_sum 1 (map tot_gpa_pts_row (?g k))\<rparr>"
    by (auto simp: compute_yearly_totals_def Let_def)
  have g: "g = ?g k"
    unfolding g_def filter_year_student by (simp add: out)
  show "y_tot_cred_att out = sum_ignoring_nulls (map tot_cred_att_row g)"
    by (simp add: out g group_sum_Suc_0)
  show "y_tot_cred_earned out = sum_ignoring_nulls (map tot_cred_earned_row g)"
    by (simp add: out g group_sum_Suc_0)
  show "y_tot_gpa_pts out = sum_ignoring_nulls (map tot_gpa_pts_row g)"
    by (simp add: out g group_sum_Suc_0)
qed

section \<open>Properties of the Cumulative Combiner\<close>

lemma cumulative_fields:
  assumes "out \<in> set (collapse_by_student all_cat)"
  defines "g \<equiv> filter (\<lambda>r. y_student_id r = c_student_id out) all_cat"
  shows "c_tot_cred_att out = sum_ignoring_nulls (map y_tot_cred_att g)"
    and "c_tot_cred_earned out = sum_ignoring_nulls (map y_tot_cred_earned g)"
    and "c_tot_gpa_pts out = sum_ignoring_nulls (map y_tot_gpa_pts g)"
    and "c_tot_gpa out = round_decimals 2 (truediv (c_tot_gpa_pts out) (c_tot_cred_att out))"
    and "set g \<subseteq> set all_cat"
proof -
  let ?g = "\<lambda>k. filter (\<lambda>r. y_student_id r = k) all_cat"
  from assms(1) obtain k where out: "out = \<lparr>c_student_id = k,
        c_tot_cred_att = group_sum 1 (map y_tot_cred_att (?g k)),
        c_tot_cred_earned = group_sum 1 (map y_tot_cred_earned (?g k)),
        c_tot_gpa_pts = group_sum 1 (map y_tot_gpa_pts (?g k)),
        c_tot_gpa = round_decimals 2 (truediv
           (group_sum 1 (map y_tot_gpa_pts (?g k))) (group_sum 1 (map y_tot_cred_att (?g k))))\<rparr>"
    by (auto simp: collapse_by_student_def Let_def)
  have g: "g = ?g k"
    by (simp add: g_def out)
  show "c_tot_cred_att out = sum_ignoring_nulls (map y_tot_cred_att g)"
    by (simp add: out g group_sum_Suc_0)
  show "c_tot_cred_earned out = sum_ignoring_nulls (map y_tot_cred_earned g)"
    by (simp add: out g group_sum_Suc_0)
  show "c_tot_gpa_pts out = sum_ignoring_nulls (map y_tot_gpa_pts g)"
    by (simp add: out g group_sum_Suc_0)
  show "c_tot_gpa out = round_decimals 2 (truediv (c_tot_gpa_pts out) (c_tot_cred_att out))"
    by (simp add: out)
  show "set g \<subseteq> set all_cat"
    by (simp add: g_def)
qed

text \<open>
  C5: in the per-year grouping by \<open>(school_year, student_id)\<close> and in the cumulative
  grouping by \<open>student_id\<close>, every \<open>tot_\<close> field of an output row is the sum of the
  non-null contributions of the rows of its group, and null when every contribution is
  null.
\<close>

theorem C5_group_sums:
  "(\<forall>out \<in> set (compute_yearly_totals df).
      let g = filter (\<lambda>r. eligible r \<and> school_year r = y_school_year out
                          \<and> student_id r = y_student_id out) df
      in y_tot_cred_att out = sum_ignoring_nulls (map tot_cred_att_row g)
       \<and> y_tot_cred_earned out = sum_ignoring_nulls (map tot_cred_earned_row g)
       \<and> y_tot_gpa_pts out = sum_ignoring_nulls (map tot_gpa_pts_row g))
   \<and> (\<forall>out \<in> set (combine all_frames).
      let g = filter (\<lambda>r. y_student_id r = c_student_id out) (concat all_frames)
      in c_tot_cred_att out = sum_ignoring_nulls (map y_tot_cred_att g)
       \<and> c_tot_cred_earned out = sum_ignoring_nulls (map y_tot_cred_earned g)
       \<and> c_tot_gpa_pts out = sum_ignoring_nulls (map y_tot_gpa_pts g))"
  using yearly_total_fields [of _ df] cumulative_fields(1-3) [of _ "concat all_frames"]
  by (simp add: Let_def combine_def)

theorem C5_group_sums_witness:
  "y_tot_cred_att (hd (compute_yearly_totals [ex_null_mark, ex_null_factor, ex_no_flag])) = Some 3
   \<and> y_tot_gpa_pts (hd (compute_yearly_totals [ex_null_mark, ex_null_factor, ex_no_flag])) = Some 90
   \<and> y_tot_gpa_pts (hd (compute_yearly_totals [ex_null_factor, ex_no_flag])) = None
   \<and> c_tot_gpa_pts (hd (combine [compute_yearly_totals [ex_null_factor],
         compute_yearly_totals [ex_null_factor]])) = None
   \<and> c_tot_cred_att (hd (combine [compute_yearly_totals [ex_null_factor],
         compute_yearly_totals [ex_null_factor]])) = Some 4"
proof -
  let ?df = "[ex_null_mark, ex_null_factor, ex_no_flag]"
  let ?df' = "[ex_null_factor, ex_no_flag]"
  let ?fr = "[compute_yearly_totals [ex_null_factor], compute_yearly_totals [ex_null_factor]]"
  have y: "compute_yearly_totals ?df = [\<lparr>y_school_year = Some 2023, y_student_id = Some 7,
      y_tot_cred_att = Some 3, y_tot_cred_earned = Some 3, y_tot_gpa_pts = Some 90\<rparr>]"
    by code_simp
  have y': "compute_yearly_totals ?df' = [\<lparr>y_school_year = Some 2023, y_student_id = Some 7,
      y_tot_cred_att = Some 2, y_tot_cred_earned = Some 2, y_tot_gpa_pts = None\<rparr>]"
    by code_simp
  have y1: "compute_yearly_totals [ex_null_factor] = [\<lparr>y_school_year = Some 2023, y_student_id = Some 7,
      y_tot_cred_att = Some 2, y_tot_cred_earned = Some 2, y_tot_gpa_pts = None\<rparr>]"
    by code_simp
  have c: "combine ?fr = [\<lparr>c_student_id = Some 7, c_tot_cred_att = Some 4,
      c_tot_cred_earned = Some 4, c_tot_gpa_pts = None, c_tot_gpa = NaN\<rparr>]"
    unfolding y1 by code_simp
  have m: "hd (compute_yearly_totals ?df) \<in> set (compute_yearly_totals ?df)"
    "hd (compute_yearly_totals ?df') \<in> set (compute_yearly_totals ?df')"
    "hd (combine ?fr) \<in> set (combine ?fr)"
    by (simp_all add: y y' c)
  from C5_group_sums [of ?df ?fr, THEN conjunct1, THEN bspec, OF m(1)]
    C5_group_sums [of ?df' ?fr, THEN conjunct1, THEN bspec, OF m(2)]
    C5_group_sums [of ?df ?fr, THEN conjunct2, THEN bspec, OF m(3)]
  show ?thesis
    by (simp add: y y' c)
qed








section \<open>Null marks\<close>

lemma null_is_passing_row_keeps:
  "eligible (null_is_passing_row r) = eligible r"
  "school_year (null_is_passing_row r) = school_year r"
  "student_id (null_is_passing_row r) = student_id r"
  "credits (null_is_passing_row r) = credits r"
  "tot_cred_att_row (null_is_passing_row r) = credits r"
  "tot_gpa_pts_row (null_is_passing_row r) = tot_gpa_pts_row r"
  by (simp_all add: null_is_passing_row_def eligible_def tot_cred_att_row_def tot_gpa_pts_row_def)




section \<open>The grade-point average of a student without credits\<close>

lemma round_decimals_simps:
  "round_decimals n NaN = NaN"
  "round_decimals n PosInf = PosInf"
  "round_decimals n NegInf = NegInf"
  by (simp_all add: round_decimals_def)

lemma sum_ignoring_nulls_Nil: "sum_ignoring_nulls [] = None"
  by (simp add: sum_ignoring_nulls_def)

lemma sum_ignoring_nulls_Cons: "sum_ignoring_nulls (c # cs) = nadd c (sum_ignoring_nulls cs)"
  by (cases c) (auto simp: sum_ignoring_nulls_def nadd_def non_null_empty_iff [symmetric])

lemma att_pts_ok_nadd:
  assumes "att_pts_ok a p" and "att_pts_ok a' p'"
  shows "att_pts_ok (nadd a a') (nadd p p')"
proof (cases a)
  case None
  with assms show ?thesis by (simp add: att_pts_ok_def nadd_def)
next
  case a: (Some x)
  show ?thesis
  proof (cases a')
    case None
    with assms a show ?thesis by (auto simp: att_pts_ok_def nadd_def split: option.splits)
  next
    case (Some y)
    from assms a Some have nn: "0 \<le> x" "0 \<le> y"
      by (simp_all add: att_pts_ok_def)
    then have z: "x + y = 0 \<longleftrightarrow> x = 0 \<and> y = 0" by linarith
    from assms a Some nn show ?thesis
      by (auto simp: att_pts_ok_def nadd_def z split: option.splits)
  qed
qed

lemma att_pts_ok_sum:
  assumes "\<forall>x \<in> set xs. att_pts_ok (fa x) (fp x)"
  shows "att_pts_ok (sum_ignoring_nulls (map fa xs)) (sum_ignoring_nulls (map fp xs))"
  using assms
proof (induction xs)
  case Nil
  show ?case by (simp add: sum_ignoring_nulls_Nil att_pts_ok_def)
next
  case (Cons x xs)
  then show ?case by (simp add: sum_ignoring_nulls_Cons att_pts_ok_nadd)
qed

lemma att_pts_ok_row:
  assumes "credits_nonneg r"
  shows "att_pts_ok (tot_cred_att_row r) (tot_gpa_pts_row r)"
  using assms
  by (auto simp: att_pts_ok_def credits_nonneg_def tot_cred_att_row_def tot_gpa_pts_row_def nmul_def
      split: option.splits)

lemma att_pts_ok_yearly:
  assumes "\<forall>r \<in> set df. eligible r \<longrightarrow> credits_nonneg r"
    and "y \<in> set (compute_yearly_totals df)"
  shows "att_pts_ok (y_tot_cred_att y) (y_tot_gpa_pts y)"
  unfolding yearly_total_fields(1,3) [OF assms(2)]
  by (rule att_pts_ok_sum) (simp add: assms(1) att_pts_ok_row)

lemma att_pts_ok_cumulative:
  assumes "\<forall>y \<in> set all_cat. att_pts_ok (y_tot_cred_att y) (y_tot_gpa_pts y)"
    and "out \<in> set (collapse_by_student all_cat)"
  shows "att_pts_ok (c_tot_cred_att out) (c_tot_gpa_pts out)"
  unfolding cumulative_fields(1,3) [OF assms(2)]
  by (rule att_pts_ok_sum) (simp add: assms(1))

lemma null_is_passing_credits_nonneg:
  "(\<forall>r \<in> set (null_is_passing merged). eligible r \<longrightarrow> credits_nonneg r)
   \<longleftrightarrow> (\<forall>r \<in> set merged. eligible r \<longrightarrow> credits_nonneg r)"
  by (simp add: null_is_passing_def credits_nonneg_def null_is_passing_row_keeps)

text \<open>
  C2 (as stated): a student whose summed \<open>tot_cred_att\<close> is zero or null has a null
  \<open>tot_gpa\<close>, whatever \<open>tot_gpa_pts\<close> is. A prior-year file with credits 1 and -1 for
  one student gives \<open>tot_cred_att = 0\<close> and \<open>tot_gpa_pts = 10\<close>, and the quotient is
  \<open>inf\<close>, which is not null.
\<close>

theorem C2_zero_credits_infinite_gpa:
  "compute_cumulative_gpa [] [[ex_plus, ex_minus]] =
     [\<lparr>c_student_id = Some 1, c_tot_cred_att = Some 0, c_tot_cred_earned = Some 0,
       c_tot_gpa_pts = Some 10, c_tot_gpa = PosInf\<rparr>]"
  by code_simp

text \<open>
  C2 (amended): the division raises nothing (\<open>truediv\<close> has a value for every pair of
  cells), and for every student of the cumulative output: a null \<open>tot_cred_att\<close> gives
  a null \<open>tot_gpa\<close>; a zero \<open>tot_cred_att\<close> gives a null \<open>tot_gpa\<close> when \<open>tot_gpa_pts\<close>
  is zero or null, and \<open>inf\<close> or \<open>-inf\<close> when \<open>tot_gpa_pts\<close> is a number above or below
  zero; and when no eligible input row has negative credits, a zero or null
  \<open>tot_cred_att\<close> always gives a null \<open>tot_gpa\<close>.
\<close>

theorem C2_gpa_of_zero_or_null_credits:
  assumes "out \<in> set (compute_cumulative_gpa merged prior)"
  shows "(c_tot_cred_att out = None \<longrightarrow> c_tot_gpa out = NaN)
       \<and> (c_tot_cred_att out = Some 0 \<longrightarrow>
            (c_tot_gpa_pts out = None \<or> c_tot_gpa_pts out = Some 0 \<longrightarrow> c_tot_gpa out = NaN)
          \<and> (\<forall>p. c_tot_gpa_pts out = Some p \<longrightarrow>
                (0 < p \<longrightarrow> c_tot_gpa out = PosInf) \<and> (p < 0 \<longrightarrow> c_tot_gpa out = NegInf)))
       \<and> ((\<forall>df \<in> set (merged # prior). \<forall>r \<in> set df. eligible r \<longrightarrow> credits_nonneg r) \<longrightarrow>
            (c_tot_cred_att out = None \<or> c_tot_cred_att out = Some 0 \<longrightarrow> c_tot_gpa out = NaN))"
proof -
  let ?frames = "compute_yearly_totals (null_is_passing merged) # map compute_yearly_totals prior"
  from assms have out: "out \<in> set (collapse_by_student (concat ?frames))"
    by (simp add: compute_cumulative_gpa_def combine_def Let_def)
  note gpa = cumulative_fields(4) [OF out]
  have general: "c_tot_cred_att out = None \<longrightarrow> c_tot_gpa out = NaN"
    "c_tot_cred_att out = Some 0 \<longrightarrow>
       (c_tot_gpa_pts out = None \<or> c_tot_gpa_pts out = Some 0 \<longrightarrow> c_tot_gpa out = NaN)
       \<and> (\<forall>p. c_tot_gpa_pts out = Some p \<longrightarrow>
            (0 < p \<longrightarrow> c_tot_gpa out = PosInf) \<and> (p < 0 \<longrightarrow> c_tot_gpa out = NegInf))"
    by (auto simp: gpa truediv_def round_decimals_simps split: option.splits)
  have nonneg: "c_tot_gpa out = NaN"
    if nn: "\<forall>df \<in> set (merged # prior). \<forall>r \<in> set df. eligible r \<longrightarrow> credits_nonneg r"
      and z: "c_tot_cred_att out = None \<or> c_tot_cred_att out = Some 0"
  proof -
    have "att_pts_ok (y_tot_cred_att y) (y_tot_gpa_pts y)" if "y \<in> set (concat ?frames)" for y
    proof -
      from that consider "y \<in> set (compute_yearly_totals (null_is_passing merged))"
        | df where "df \<in> set prior" "y \<in> set (compute_yearly_totals df)"
        by auto
      then show ?thesis
      proof cases
        case 1
        from nn have "\<forall>r \<in> set (null_is_passing merged). eligible r \<longrightarrow> credits_nonneg r"
          by (simp add: null_is_passing_credits_nonneg)
        from att_pts_ok_yearly [OF this 1] show ?thesis .
      next
        case 2
        from nn 2(1) have "\<forall>r \<in> set df. eligible r \<longrightarrow> credits_nonneg r"
          by simp
        from att_pts_ok_yearly [OF this 2(2)] show ?thesis .
      qed
    qed
    then have "att_pts_ok (c_tot_cred_att out) (c_tot_gpa_pts out)"
      using out by (intro att_pts_ok_cumulative) blast+
    with z have "c_tot_cred_att out = None \<or>
        c_tot_cred_att out = Some 0 \<and> (c_tot_gpa_pts out = None \<or> c_tot_gpa_pts out = Some 0)"
      by (auto simp: att_pts_ok_def)
    with general show ?thesis by auto
  qed
  from general nonneg show ?thesis by simp
qed

theorem C2_gpa_of_zero_or_null_credits_witness:
  "c_tot_cred_att (hd (compute_cumulative_gpa [] [[ex_zero]])) = Some 0
   \<and> c_tot_gpa (hd (compute_cumulative_gpa [] [[ex_zero]])) = NaN
   \<and> eligible ex_zero \<and> credits_nonneg ex_zero"
proof -
  have c: "compute_cumulative_gpa [] [[ex_zero]] =
      [\<lparr>c_student_id = Some 2, c_tot_cred_att = Some 0, c_tot_cred_earned = Some 0,
        c_tot_gpa_pts = Some 0, c_tot_gpa = NaN\<rparr>]"
    by code_simp
  have nn: "\<forall>df \<in> set ([] # [[ex_zero]]). \<forall>r \<in> set df. eligible r \<longrightarrow> credits_nonneg r"
    by (simp add: credits_nonneg_def ex_zero_def)
  have m: "hd (compute_cumulative_gpa [] [[ex_zero]]) \<in> set (compute_cumulative_gpa [] [[ex_zero]])"
    by (simp add: c)
  have e: "eligible ex_zero" "credits_nonneg ex_zero"
    by (simp_all add: eligible_def fillna_def isna_def credits_nonneg_def ex_zero_def)
  from C2_gpa_of_zero_or_null_credits [OF m] nn e show ?thesis
    by (simp add: c)
qed

section \<open>Properties of the deduplication of course flags\<close>

lemma find_filter: "find P xs = (case filter P xs of [] \<Rightarrow> None | x # _ \<Rightarrow> Some x)"
  by (induction xs) simp_all

lemma set_drop_duplicates_keys:
  "key_of ` set (drop_duplicates key_of xs) = key_of ` set xs"
proof (induction key_of xs rule: drop_duplicates.induct)
  case (1 key_of)
  show ?case by simp
next
  case (2 key_of x xs)
  then show ?case by auto
qed

lemma set_drop_duplicates_subset:
  "set (drop_duplicates key_of xs) \<subseteq> set xs"
  by (induction key_of xs rule: drop_duplicates.induct) auto

lemma distinct_drop_duplicates:
  "distinct (map key_of (drop_duplicates key_of xs))"
proof (induction key_of xs rule: drop_duplicates.induct)
  case (1 key_of)
  show ?case by simp
next
  case (2 key_of x xs)
  have "key_of x \<notin> key_of ` set (drop_duplicates key_of (filter (\<lambda>y. key_of y \<noteq> key_of x) xs))"
    by (auto simp: set_drop_duplicates_keys)
  with 2 show ?case by simp
qed

lemma drop_duplicates_first:
  "r \<in> set (drop_duplicates key_of xs) \<Longrightarrow> find (\<lambda>x. key_of x = key_of r) xs = Some r"
proof (induction key_of xs rule: drop_duplicates.induct)
  case (1 key_of)
  then show ?case by simp
next
  case (2 key_of x xs)
  show ?case
  proof (cases "r = x")
    case True
    then show ?thesis by simp
  next
    case False
    with "2.prems" have r: "r \<in> set (drop_duplicates key_of (filter (\<lambda>y. key_of y \<noteq> key_of x) xs))"
      by simp
    with set_drop_duplicates_subset [of key_of "filter (\<lambda>y. key_of y \<noteq> key_of x) xs"]
    have ne: "key_of r \<noteq> key_of x" by auto
    have "filter (\<lambda>y. key_of y = key_of r) (filter (\<lambda>y. key_of y \<noteq> key_of x) xs)
        = filter (\<lambda>y. key_of y = key_of r) xs"
      using ne by (auto intro: filter_cong)
    with "2.IH" [OF r] have "find (\<lambda>y. key_of y = key_of r) xs = Some r"
      by (simp add: find_filter)
    with ne show ?thesis by auto
  qed
qed

lemma sorted_drop_duplicates:
  "sorted (map key_of xs) \<Longrightarrow> sorted (map key_of (drop_duplicates key_of xs))"
proof (induction key_of xs rule: drop_duplicates.induct)
  case (1 key_of)
  show ?case by simp
next
  case (2 key_of x xs)
  from "2.prems" have "sorted (map key_of (filter (\<lambda>y. key_of y \<noteq> key_of x) xs))"
    by (simp add: sorted_filter)
  from "2.IH" [OF this] "2.prems" set_drop_duplicates_subset [of key_of "filter (\<lambda>y. key_of y \<noteq> key_of x) xs"]
  show ?case by auto
qed

text \<open>
  C3 (as stated): of the rows with one key tuple and different flags, the row kept is
  the one that sorts first on the key tuple, the same for every order of the input.
  Rows with one key tuple tie in that sort, and the two orders of two such rows keep
  different rows.
\<close>

theorem C3_dedupe_depends_on_input_order:
  "cf_key ex_flag_1 = cf_key ex_flag_0
   \<and> dedupe_courseflag [ex_flag_1, ex_flag_0] = [ex_flag_1]
   \<and> dedupe_courseflag [ex_flag_0, ex_flag_1] = [ex_flag_0]
   \<and> dedupe_courseflag [ex_flag_1, ex_flag_0] \<noteq> dedupe_courseflag [ex_flag_0, ex_flag_1]"
  by (simp add: dedupe_courseflag_def sort_values_def cf_key_def ex_flag_1_def ex_flag_0_def)

text \<open>
  C3 (amended): the deduplication keeps exactly one row for each key tuple of the
  input, in ascending order of the key tuples, and the row kept for a key tuple is the
  first row of the input that has it.
\<close>

theorem C3_dedupe_keeps_first_in_input:
  "distinct (map cf_key (dedupe_courseflag df))
   \<and> sorted (map cf_key (dedupe_courseflag df))
   \<and> cf_key ` set (dedupe_courseflag df) = cf_key ` set df
   \<and> (\<forall>r \<in> set (dedupe_courseflag df). find (\<lambda>x. cf_key x = cf_key r) df = Some r)"
proof -
  have "find (\<lambda>x. cf_key x = cf_key r) df = Some r" if "r \<in> set (dedupe_courseflag df)" for r
  proof -
    from that have "find (\<lambda>x. cf_key x = cf_key r) (sort_key cf_key df) = Some r"
      by (simp add: dedupe_courseflag_def sort_values_def drop_duplicates_first)
    then show ?thesis
      by (simp add: find_filter sort_key_stable)
  qed
  then show ?thesis
    by (simp add: dedupe_courseflag_def sort_values_def distinct_drop_duplicates
        sorted_drop_duplicates set_drop_duplicates_keys)
qed

theorem C3_dedupe_keeps_first_in_input_witness:
  "dedupe_courseflag [ex_flag_0, ex_flag_1, ex_flag_other] = [ex_flag_other, ex_flag_0]
   \<and> find (\<lambda>x. cf_key x = cf_key ex_flag_0) [ex_flag_0, ex_flag_1, ex_flag_other]
       = Some ex_flag_0"
proof -
  let ?df = "[ex_flag_0, ex_flag_1, ex_flag_other]"
  have d: "dedupe_courseflag ?df = [ex_flag_other, ex_flag_0]"
    by (simp add: dedupe_courseflag_def sort_values_def cf_key_def
        ex_flag_1_def ex_flag_0_def ex_flag_other_def)
  then have m: "ex_flag_0 \<in> set (dedupe_courseflag ?df)"
    by simp
  from C3_dedupe_keeps_first_in_input [of ?df, THEN conjunct2, THEN conjunct2, THEN conjunct2,
      THEN bspec, OF m] d
  show ?thesis by simp
qed

end
